theory Spec2Isabelle
  imports Main "HOL-Library.AList"
begin

section \<open>JavaScript values\<close>

text \<open>
  The analyzer reads a syntax tree made of plain JavaScript objects. A value is
  \<open>undefined\<close>, \<open>null\<close>, a boolean, a number, a string, an object (its own
  properties in insertion order, keys distinct) or an array. Numbers are the integers:
  the scores and depths of the program are small integers, and a numeric literal of the
  tree is taken to be integral. Values are finite trees, as a parser produces them.
\<close>

datatype jsval =
    Undefined
  | Null
  | Bool bool
  | Num int
  | Str string
  | Obj "(string \<times> jsval) list"
  | Arr "jsval list"

datatype error = TypeError | Error

text \<open>A computation that may throw: \<open>Inl\<close> is the exception, \<open>Inr\<close> the value.\<close>

definition rbind :: "error + 'a \<Rightarrow> ('a \<Rightarrow> error + 'b) \<Rightarrow> error + 'b" where
  "rbind m f = (case m of Inl e \<Rightarrow> Inl e | Inr v \<Rightarrow> f v)"

lemma rbind_cong [fundef_cong]:
  "m = m' \<Longrightarrow> (\<And>v. m' = Inr v \<Longrightarrow> f v = f' v) \<Longrightarrow> rbind m f = rbind m' f'"
  by (auto simp: rbind_def split: sum.splits)

text \<open>JavaScript truthiness, as \<open>if (v)\<close>, \<open>!v\<close>, \<open>v || w\<close> and \<open>c ? a : b\<close> test it.\<close>

fun truthy :: "jsval \<Rightarrow> bool" where
  "truthy Undefined = False"
| "truthy Null = False"
| "truthy (Bool b) = b"
| "truthy (Num n) = (n \<noteq> 0)"
| "truthy (Str s) = (s \<noteq> [])"
| "truthy (Obj fs) = True"
| "truthy (Arr xs) = True"

text \<open>
  The property read \<open>v.k\<close>. Reading a property of \<open>undefined\<close> or \<open>null\<close> throws a
  TypeError; a property an object does not have reads as \<open>undefined\<close>. The program reads
  the names \<open>type\<close>, \<open>context\<close>, \<open>consequent\<close>, \<open>length\<close>, \<open>alternate\<close>, \<open>operator\<close>,
  \<open>id\<close>, \<open>name\<close>, \<open>left\<close>, \<open>object\<close>, \<open>property\<close>, \<open>value\<close>, \<open>loc\<close>, \<open>start\<close> and
  \<open>line\<close>; of these, arrays and strings have \<open>length\<close> only, booleans and numbers none.
\<close>

fun get :: "jsval \<Rightarrow> string \<Rightarrow> error + jsval" where
  "get Undefined k = Inl TypeError"
| "get Null k = Inl TypeError"
| "get (Bool b) k = Inr Undefined"
| "get (Num n) k = Inr Undefined"
| "get (Str s) k = Inr (if k = ''length'' then Num (int (length s)) else Undefined)"
| "get (Obj fs) k = Inr (case map_of fs k of None \<Rightarrow> Undefined | Some v \<Rightarrow> v)"
| "get (Arr xs) k = Inr (if k = ''length'' then Num (int (length xs)) else Undefined)"

text \<open>
  The assignment \<open>o.k = v\<close> on an object: an existing property keeps its place, a new
  one is added last. The program assigns to syntax-tree nodes only, which are objects.
\<close>

fun put :: "jsval \<Rightarrow> string \<Rightarrow> jsval \<Rightarrow> jsval" where
  "put (Obj fs) k v = Obj (AList.update k v fs)"
| "put w k v = w"

section \<open>Node types\<close>

text \<open>
  Modelled from the spec: the module \<open>./syntax\<close>, a table of node type tags, is not
  among the sources. The spec names the vocabulary (program root, function declaration,
  function expression, call expression, if-statement, switch-case, logical expression,
  catch clause, conditional expression, do-while, for, for-in, while,
  variable-declarator, assignment-expression, member-access); the tags are the ones a
  parser of the ESTree family writes into \<open>type\<close>.
\<close>

definition syntax_Program :: jsval where
  "syntax_Program = Str ''Program''"

definition syntax_FunctionDeclaration :: jsval where
  "syntax_FunctionDeclaration = Str ''FunctionDeclaration''"

definition syntax_FunctionExpression :: jsval where
  "syntax_FunctionExpression = Str ''FunctionExpression''"

definition syntax_CallExpression :: jsval where
  "syntax_CallExpression = Str ''CallExpression''"

definition syntax_IfStatement :: jsval where
  "syntax_IfStatement = Str ''IfStatement''"

definition syntax_SwitchCase :: jsval where
  "syntax_SwitchCase = Str ''SwitchCase''"

definition syntax_LogicalExpression :: jsval where
  "syntax_LogicalExpression = Str ''LogicalExpression''"

definition syntax_CatchClause :: jsval where
  "syntax_CatchClause = Str ''CatchClause''"

definition syntax_ConditionalExpression :: jsval where
  "syntax_ConditionalExpression = Str ''ConditionalExpression''"

definition syntax_DoWhileStatement :: jsval where
  "syntax_DoWhileStatement = Str ''DoWhileStatement''"

definition syntax_ForStatement :: jsval where
  "syntax_ForStatement = Str ''ForStatement''"

definition syntax_ForInStatement :: jsval where
  "syntax_ForInStatement = Str ''ForInStatement''"

definition syntax_WhileStatement :: jsval where
  "syntax_WhileStatement = Str ''WhileStatement''"

definition syntax_VariableDeclarator :: jsval where
  "syntax_VariableDeclarator = Str ''VariableDeclarator''"

definition syntax_AssignmentExpression :: jsval where
  "syntax_AssignmentExpression = Str ''AssignmentExpression''"

definition syntax_MemberExpression :: jsval where
  "syntax_MemberExpression = Str ''MemberExpression''"

lemmas syntax_defs =
  syntax_Program_def syntax_FunctionDeclaration_def syntax_FunctionExpression_def
  syntax_CallExpression_def syntax_IfStatement_def syntax_SwitchCase_def
  syntax_LogicalExpression_def syntax_CatchClause_def syntax_ConditionalExpression_def
  syntax_DoWhileStatement_def syntax_ForStatement_def syntax_ForInStatement_def
  syntax_WhileStatement_def syntax_VariableDeclarator_def syntax_AssignmentExpression_def
  syntax_MemberExpression_def

section \<open>Scope records (Context)\<close>

text \<open>
  \<open>function Context(node, parentNode, depth)\<close>. The fields \<open>node\<close> and \<open>parent\<close> hold
  syntax-tree nodes, \<open>children\<close> holds references to other Context objects. Context
  objects are shared (the analyzer's stack, the parent's \<open>children\<close> and the source file
  all refer to the same object) and are updated in place, so they live in a heap, a
  list indexed by address, and a reference is an address.
\<close>

record ctx =
  c_node :: jsval
  c_parent :: jsval
  c_children :: "nat list"
  c_score :: int
  c_depth :: nat

type_synonym heap = "ctx list"

definition Context :: "jsval \<Rightarrow> jsval \<Rightarrow> nat \<Rightarrow> ctx" where
  "Context nd parentNode depth =
     \<lparr>c_node = nd, c_parent = parentNode, c_children = [], c_score = 0, c_depth = depth\<rparr>"

text \<open>\<open>Context.prototype.add\<close>: \<open>this._score += num\<close>.\<close>

definition Context_add :: "int \<Rightarrow> ctx \<Rightarrow> ctx" where
  "Context_add num c = c\<lparr>c_score := c_score c + num\<rparr>"

text \<open>\<open>Context.prototype.depth\<close>.\<close>

definition Context_depth :: "ctx \<Rightarrow> nat" where
  "Context_depth c = c_depth c"

text \<open>\<open>Context.prototype.root\<close>.\<close>

definition Context_root :: "ctx \<Rightarrow> error + bool" where
  "Context_root c = rbind (get (c_node c) ''type'') (\<lambda>ty. Inr (ty = syntax_Program))"

text \<open>\<open>Context.prototype.location\<close>: \<open>this.root() ? 0 : this.node.loc.start.line\<close>.\<close>

definition Context_location :: "ctx \<Rightarrow> error + jsval" where
  "Context_location c =
     rbind (Context_root c) (\<lambda>r.
       if r then Inr (Num 0)
       else rbind (get (c_node c) ''loc'') (\<lambda>loc.
            rbind (get loc ''start'') (\<lambda>start. get start ''line'')))"

subsection \<open>Signatures\<close>

text \<open>
  \<open>Array.prototype.join\<close>: \<open>undefined\<close> and \<open>null\<close> elements give the empty string, every
  other element its string conversion. An integer below \<open>10^21\<close> converts to its decimal
  digits, a plain object to \<open>[object Object]\<close>, an array to its elements joined by commas.
\<close>

fun show_nat :: "nat \<Rightarrow> string" where
  "show_nat n =
     (if n < 10 then [char_of (48 + n)]
      else show_nat (n div 10) @ [char_of (48 + n mod 10)])"

declare show_nat.simps [simp del]

fun join_strings :: "string \<Rightarrow> string list \<Rightarrow> string" where
  "join_strings sep [] = []"
| "join_strings sep [x] = x"
| "join_strings sep (x # y # ys) = x @ sep @ join_strings sep (y # ys)"

fun to_string :: "jsval \<Rightarrow> string" where
  "to_string Undefined = ''undefined''"
| "to_string Null = ''null''"
| "to_string (Bool b) = (if b then ''true'' else ''false'')"
| "to_string (Num n) = (if n < 0 then ''-'' @ show_nat (nat (- n)) else show_nat (nat n))"
| "to_string (Str s) = s"
| "to_string (Obj fs) = ''[object Object]''"
| "to_string (Arr xs) =
     join_strings '','' (map (\<lambda>x. if x = Undefined \<or> x = Null then [] else to_string x) xs)"

definition join :: "jsval list \<Rightarrow> string \<Rightarrow> string" where
  "join xs sep =
     join_strings sep (map (\<lambda>x. if x = Undefined \<or> x = Null then [] else to_string x) xs)"

text \<open>\<open>Context.prototype.main\<close>: \<open>'*'\<close> for the Program node, else \<open>undefined\<close>.\<close>

definition Context_main :: "ctx \<Rightarrow> error + jsval" where
  "Context_main c =
     rbind (get (c_node c) ''type'') (\<lambda>ty.
       if ty = syntax_Program then Inr (Str ''*'') else Inr Undefined)"

text \<open>
  \<open>Context.prototype.named\<close>:
  \<open>if (!this.node.id || !this.node.id.name) return; return this.node.id.name;\<close>
\<close>

definition Context_named :: "ctx \<Rightarrow> error + jsval" where
  "Context_named c =
     rbind (get (c_node c) ''id'') (\<lambda>i.
       if \<not> truthy i then Inr Undefined
       else rbind (get i ''name'') (\<lambda>n.
         if \<not> truthy n then Inr Undefined
         else rbind (get (c_node c) ''id'') (\<lambda>i1. get i1 ''name'')))"

text \<open>
  \<open>Context.prototype.vardec\<close>:
  \<open>if (this.parent.type !== syntax.VariableDeclarator) return; return this.parent.id.name;\<close>
\<close>

definition Context_vardec :: "ctx \<Rightarrow> error + jsval" where
  "Context_vardec c =
     rbind (get (c_parent c) ''type'') (\<lambda>ty.
       if ty \<noteq> syntax_VariableDeclarator then Inr Undefined
       else rbind (get (c_parent c) ''id'') (\<lambda>i. get i ''name''))"

text \<open>
  The local function \<open>search\<close> of \<open>Context.prototype.assignment\<close>. It pushes onto the
  array \<open>ret\<close> of the enclosing call; here it takes the array and returns it extended.
\<close>

lemma size_map_of:
  "map_of fs k = Some v \<Longrightarrow> size v < Suc (size_list (size_prod (\<lambda>_. 0) size) fs)"
  by (induction fs) (auto split: if_splits)

lemma get_size: "get obj k = Inr v \<Longrightarrow> get v k' = Inr (Str t) \<Longrightarrow> size v < size obj"
  by (cases obj; cases v) (auto split: option.splits if_splits dest: size_map_of)

function search :: "jsval \<Rightarrow> jsval list \<Rightarrow> error + jsval list" where
  "search obj ret =
     rbind (get obj ''object'') (\<lambda>object.
     rbind (get object ''type'') (\<lambda>ty.
     rbind (if ty = syntax_MemberExpression then search object ret
            else rbind (get object ''name'') (\<lambda>name. Inr (ret @ [name]))) (\<lambda>ret1.
     rbind (get obj ''property'') (\<lambda>property.
     rbind (get property ''name'') (\<lambda>name.
       if truthy name then Inr (ret1 @ [name])
       else rbind (get property ''value'') (\<lambda>val.
         if truthy val then Inr (ret1 @ [val]) else Inr (ret1 @ [Str ''?''])))))))"
  by pat_completeness auto

termination
  apply (relation "measure (\<lambda>(obj, ret). size obj)")
  apply simp
  apply (auto dest: get_size simp: syntax_defs)
  done

declare search.simps [simp del]

text \<open>\<open>Context.prototype.assignment\<close>.\<close>

definition Context_assignment :: "ctx \<Rightarrow> error + jsval" where
  "Context_assignment c =
     rbind (get (c_parent c) ''type'') (\<lambda>ty.
       if ty \<noteq> syntax_AssignmentExpression then Inr Undefined
       else rbind (get (c_parent c) ''left'') (\<lambda>left.
            rbind (get left ''name'') (\<lambda>name.
              if truthy name then get left ''name''
              else rbind (search left []) (\<lambda>ret. Inr (Str (join ret ''.''))))))"

text \<open>
  \<open>Context.prototype.signature\<close>:
  \<open>this.main() || this.named() || this.vardec() || this.assignment() || 'anonymous'\<close>.
  Each operand is evaluated only when the ones before it are falsy.
\<close>

definition Context_signature :: "ctx \<Rightarrow> error + jsval" where
  "Context_signature c =
     rbind (Context_main c) (\<lambda>m. if truthy m then Inr m else
     rbind (Context_named c) (\<lambda>n. if truthy n then Inr n else
     rbind (Context_vardec c) (\<lambda>v. if truthy v then Inr v else
     rbind (Context_assignment c) (\<lambda>a. if truthy a then Inr a else
       Inr (Str ''anonymous'')))))"

subsection \<open>Scores\<close>

text \<open>
  \<open>Context.prototype.score\<close>:
  \<open>this.children.map(child => child.score()).reduce((a, b) => a + b, this._score)\<close>.
  The method reads the heap and writes nothing. The recursion follows the references
  in \<open>children\<close>, so it need not end in an arbitrary heap; the first argument bounds the
  depth of the calls, and \<open>None\<close> says that the bound was reached.
\<close>

fun Context_score :: "nat \<Rightarrow> heap \<Rightarrow> nat \<Rightarrow> int option" where
  "Context_score 0 h r = None"
| "Context_score (Suc n) h r =
     map_option (foldl (\<lambda>a b. a + b) (c_score (h ! r)))
       (those (map (Context_score n h) (c_children (h ! r))))"

text \<open>
  A heap is forward when every reference in a \<open>children\<close> field points to a record at a
  later address of the heap: a child is created after its parent. The heaps the
  analyzer builds are forward.
\<close>

definition forward :: "heap \<Rightarrow> bool" where
  "forward h =
     list_all (\<lambda>r. list_all (\<lambda>c. r < c \<and> c < length h) (c_children (h ! r))) [0..<length h]"

section \<open>The analyzer\<close>

text \<open>
  The state of a run: the analyzer's \<open>stack\<close> of references to Context objects (the
  active one last, as \<open>push\<close> and \<open>pop\<close> leave it), the records the source file has
  received through \<open>source.add\<close>, in order, and the heap of Context objects.
  The fields \<open>contexts\<close> and \<open>score\<close> are set by the constructor and never written
  again; they are constants here.
\<close>

record state =
  a_stack :: "nat list"
  a_source :: "nat list"
  a_heap :: heap

definition contexts :: "jsval list" where
  "contexts = [syntax_FunctionExpression, syntax_FunctionDeclaration, syntax_Program]"

definition score_branch :: int where "score_branch = 10"
definition score_branchEmpty :: int where "score_branchEmpty = 1"
definition score_fn :: int where "score_fn = 3"
definition score_call :: int where "score_call = 1"

text \<open>
  \<open>Analyzer.prototype.context\<close>: \<open>this.stack[this.stack.length - 1]\<close>, which is
  \<open>undefined\<close> (here \<open>None\<close>) on an empty stack.
\<close>

definition Analyzer_context :: "state \<Rightarrow> nat option" where
  "Analyzer_context s = (if a_stack s = [] then None else Some (last (a_stack s)))"

text \<open>
  \<open>Analyzer.prototype.add\<close>: \<open>this.context().add(num)\<close>. With an empty stack the
  method call is on \<open>undefined\<close> and throws.
\<close>

definition Analyzer_add :: "int \<Rightarrow> state \<Rightarrow> error + state" where
  "Analyzer_add num s =
     (case Analyzer_context s of
        None \<Rightarrow> Inl TypeError
      | Some r \<Rightarrow> Inr (s\<lparr>a_heap := (a_heap s)[r := Context_add num (a_heap s ! r)]\<rparr>))"

definition addBranch :: "state \<Rightarrow> error + state" where
  "addBranch s = Analyzer_add score_branch s"

definition addCase :: "jsval \<Rightarrow> state \<Rightarrow> error + state" where
  "addCase nd s =
     rbind (get nd ''consequent'') (\<lambda>consequent.
     rbind (get consequent ''length'') (\<lambda>len.
       Analyzer_add (if truthy len then score_branch else score_branchEmpty) s))"

definition addIf :: "jsval \<Rightarrow> state \<Rightarrow> error + state" where
  "addIf nd s =
     rbind (get nd ''alternate'') (\<lambda>alternate.
     rbind (if truthy alternate then Analyzer_add score_branch s else Inr s) (\<lambda>s1.
       Analyzer_add score_branch s1))"

definition addLogical :: "jsval \<Rightarrow> state \<Rightarrow> error + state" where
  "addLogical nd s =
     rbind (get nd ''operator'') (\<lambda>operator.
       if Str ''||'' = operator then Analyzer_add score_branch s else Inr s)"

definition addCall :: "state \<Rightarrow> error + state" where
  "addCall s = Analyzer_add score_call s"

definition addFn :: "jsval \<Rightarrow> state \<Rightarrow> error + state" where
  "addFn nd s = Analyzer_add score_fn s"

text \<open>\<open>Analyzer.prototype.process\<close>: the \<open>switch\<close> on \<open>node.type\<close>, first match first.\<close>

definition process :: "jsval \<Rightarrow> state \<Rightarrow> error + state" where
  "process nd s =
     rbind (get nd ''type'') (\<lambda>ty.
       if ty = syntax_FunctionExpression \<or> ty = syntax_FunctionDeclaration then addFn nd s
       else if ty = syntax_CallExpression then addCall s
       else if ty = syntax_IfStatement then addIf nd s
       else if ty = syntax_SwitchCase then addCase nd s
       else if ty = syntax_LogicalExpression then addLogical nd s
       else if ty = syntax_CatchClause \<or> ty = syntax_ConditionalExpression
            \<or> ty = syntax_DoWhileStatement \<or> ty = syntax_ForStatement
            \<or> ty = syntax_ForInStatement \<or> ty = syntax_WhileStatement then addBranch s
       else Inr s)"

text \<open>
  \<open>Analyzer.prototype.pushContext\<close>. \<open>new Context\<close> allocates the record at the next
  free address; it becomes the last child of the active record, if there is one, the
  top of the stack, and the source file receives it.
\<close>

definition pushContext :: "jsval \<Rightarrow> jsval \<Rightarrow> state \<Rightarrow> state" where
  "pushContext nd parentNode s =
     (let parent = Analyzer_context s;
          r = length (a_heap s);
          h = a_heap s @ [Context nd parentNode (length (a_stack s))];
          h1 = (case parent of
                  None \<Rightarrow> h
                | Some p \<Rightarrow> h[p := (h ! p)\<lparr>c_children := c_children (h ! p) @ [r]\<rparr>])
      in s\<lparr>a_heap := h1, a_stack := a_stack s @ [r], a_source := a_source s @ [r]\<rparr>)"

text \<open>\<open>Analyzer.prototype.popContext\<close>: \<open>this.stack.pop()\<close>, which leaves an empty stack empty.\<close>

definition popContext :: "state \<Rightarrow> state" where
  "popContext s = s\<lparr>a_stack := butlast (a_stack s)\<rparr>"

text \<open>
  The two visitor callbacks of \<open>Analyzer.prototype.traverse\<close>. \<open>enter\<close> writes
  \<open>node.context = true\<close> into the tree, so it returns the node as it stands afterwards.
  A record holds its node and its parent node by value; the only writes to the tree
  are these \<open>context\<close> marks, which no method of a record reads.
\<close>

definition enter :: "jsval \<Rightarrow> jsval \<Rightarrow> state \<Rightarrow> error + (state \<times> jsval)" where
  "enter nd parentNode s =
     rbind (process nd s) (\<lambda>s1.
     rbind (get nd ''type'') (\<lambda>ty.
       if ty \<in> set contexts
       then (let nd1 = put nd ''context'' (Bool True)
             in Inr (pushContext nd1 parentNode s1, nd1))
       else Inr (s1, nd)))"

definition leave :: "jsval \<Rightarrow> state \<Rightarrow> error + state" where
  "leave nd s =
     rbind (get nd ''context'') (\<lambda>c. if truthy c then Inr (popContext s) else Inr s)"

section \<open>The tree walk\<close>

text \<open>
  Modelled from the spec: the generic traversal primitive (\<open>traverse\<close> of the external
  package estraverse) is not among the sources. The spec's contract: given a tree and
  an enter/leave pair of callbacks, it visits every node once in pre-order (enter) and
  once in post-order (leave), passing each node and its immediate syntactic parent to
  enter; the root has no parent (\<open>null\<close>). A node is an object with a string \<open>type\<close>;
  the children of a node are its properties that are nodes and the nodes among the
  elements of its properties that are arrays, in property order (the order of the
  source text in a parser's output). The children are read after enter has run on the
  node. The callbacks are the analyzer's \<open>enter\<close> and \<open>leave\<close>; the walk returns the
  tree as the callbacks have left it.
\<close>

fun isNode :: "jsval \<Rightarrow> bool" where
  "isNode (Obj fs) = (case map_of fs ''type'' of Some (Str t) \<Rightarrow> True | _ \<Rightarrow> False)"
| "isNode v = False"

text \<open>The measure of the walk: the number of objects and arrays in a value.\<close>

fun weight :: "jsval \<Rightarrow> nat" where
  "weight (Obj fs) = Suc (sum_list (map (\<lambda>kv. weight (snd kv)) fs))"
| "weight (Arr xs) = Suc (sum_list (map weight xs))"
| "weight v = 0"

lemma weight_update:
  "(\<Sum>kv\<leftarrow>AList.update k (Bool b) fs. weight (snd kv)) \<le> (\<Sum>kv\<leftarrow>fs. weight (snd kv))"
  by (induction fs) auto

lemma weight_put: "weight (put nd k (Bool b)) \<le> weight nd"
  by (cases nd) (simp_all add: weight_update)

lemma enter_weight: "enter nd p s = Inr (s1, nd1) \<Longrightarrow> weight nd1 \<le> weight nd"
  by (auto simp: enter_def rbind_def Let_def weight_put split: sum.splits if_splits)

lemma weight_fields_less:
  assumes "enter nd p s = Inr (s1, Obj fs)"
  shows "(\<Sum>kv\<leftarrow>fs. weight (snd kv)) < weight nd"
proof -
  have "(\<Sum>kv\<leftarrow>fs. weight (snd kv)) < weight (Obj fs)" by simp
  also have "\<dots> \<le> weight nd" using assms by (rule enter_weight)
  finally show ?thesis .
qed

function traverse_node :: "jsval \<Rightarrow> jsval \<Rightarrow> state \<Rightarrow> error + (state \<times> jsval)"
  and traverse_fields ::
    "jsval \<Rightarrow> (string \<times> jsval) list \<Rightarrow> state \<Rightarrow> error + (state \<times> (string \<times> jsval) list)"
  and traverse_elems :: "jsval \<Rightarrow> jsval list \<Rightarrow> state \<Rightarrow> error + (state \<times> jsval list)"
where
  "traverse_node nd parentNode s =
     rbind (enter nd parentNode s) (\<lambda>(s1, nd1).
       case nd1 of
         Obj fs \<Rightarrow>
           rbind (traverse_fields nd1 fs s1) (\<lambda>(s2, fs2).
           rbind (leave (Obj fs2) s2) (\<lambda>s3. Inr (s3, Obj fs2)))
       | _ \<Rightarrow> rbind (leave nd1 s1) (\<lambda>s3. Inr (s3, nd1)))"
| "traverse_fields p [] s = Inr (s, [])"
| "traverse_fields p ((k, v) # rest) s =
     (if isNode v then
        rbind (traverse_node v p s) (\<lambda>(s1, v1).
        rbind (traverse_fields p rest s1) (\<lambda>(s2, rest2). Inr (s2, (k, v1) # rest2)))
      else case v of
        Arr xs \<Rightarrow>
          rbind (traverse_elems p xs s) (\<lambda>(s1, xs1).
          rbind (traverse_fields p rest s1) (\<lambda>(s2, rest2). Inr (s2, (k, Arr xs1) # rest2)))
      | _ \<Rightarrow> rbind (traverse_fields p rest s) (\<lambda>(s2, rest2). Inr (s2, (k, v) # rest2)))"
| "traverse_elems p [] s = Inr (s, [])"
| "traverse_elems p (x # xs) s =
     (if isNode x then
        rbind (traverse_node x p s) (\<lambda>(s1, x1).
        rbind (traverse_elems p xs s1) (\<lambda>(s2, xs2). Inr (s2, x1 # xs2)))
      else rbind (traverse_elems p xs s) (\<lambda>(s2, xs2). Inr (s2, x # xs2)))"
  by pat_completeness auto

termination
  apply (relation "measures [
     (\<lambda>x. case x of Inl (nd, p, s) \<Rightarrow> weight nd
                  | Inr (Inl (p, fs, s)) \<Rightarrow> sum_list (map (\<lambda>kv. weight (snd kv)) fs)
                  | Inr (Inr (p, xs, s)) \<Rightarrow> sum_list (map weight xs)),
     (\<lambda>x. case x of Inl (nd, p, s) \<Rightarrow> 0
                  | Inr (Inl (p, fs, s)) \<Rightarrow> Suc (length fs)
                  | Inr (Inr (p, xs, s)) \<Rightarrow> Suc (length xs))]")
  apply (auto simp: weight_fields_less)
  apply force
  done

declare traverse_node.simps [simp del]

text \<open>A root that is not a node is outside the contract of the walk and is refused.\<close>

definition traverse :: "jsval \<Rightarrow> state \<Rightarrow> error + (state \<times> jsval)" where
  "traverse root s = (if isNode root then traverse_node root Null s else Inl Error)"

text \<open>\<open>Analyzer.prototype.traverse\<close>: \<open>if (!ast) return;\<close>, then the walk.\<close>

definition Analyzer_traverse :: "jsval \<Rightarrow> state \<Rightarrow> error + (state \<times> jsval)" where
  "Analyzer_traverse ast s = (if \<not> truthy ast then Inr (s, ast) else traverse ast s)"

text \<open>
  \<open>Analyzer.prototype.analyze\<close>. The source file is given by what \<open>source.ast()\<close>
  returns and by the records it holds already; the result is the state after the run
  and the tree as the run has left it.
\<close>

definition analyze :: "jsval \<Rightarrow> nat list \<Rightarrow> state \<Rightarrow> error + (state \<times> jsval)" where
  "analyze ast src s = Analyzer_traverse ast (s\<lparr>a_stack := [], a_source := src\<rparr>)"

text \<open>\<open>new Analyzer()\<close> in a fresh heap.\<close>

definition Analyzer :: state where
  "Analyzer = \<lparr>a_stack = [], a_source = [], a_heap = []\<rparr>"

section \<open>Member-access chains\<close>

text \<open>
  The words of the spec for the assignment rule of a signature, as definitions to
  compare \<open>search\<close> with. \<open>field v k\<close> is the property \<open>k\<close> of \<open>v\<close>, \<open>undefined\<close> when
  there is none. A segment of a dotted path contributes its property's name, or else
  its property's literal value, or else \<open>?\<close> when it has neither. A property node is
  regular when its name and its value, where it has them, are truthy (a name is a
  non-empty string; a literal value is not \<open>0\<close>, \<open>''\<close>, \<open>false\<close> or \<open>null\<close>).
  \<open>member_chain m b ps\<close> says that \<open>m\<close> is a member access over the innermost object
  \<open>b\<close> (which is not itself a member access) whose property nodes, from the innermost
  access outwards, that is left to right in the source text, are \<open>ps\<close>.
\<close>

definition field :: "jsval \<Rightarrow> string \<Rightarrow> jsval" where
  "field v k = (case get v k of Inl e \<Rightarrow> Undefined | Inr x \<Rightarrow> x)"

definition segment :: "jsval \<Rightarrow> jsval" where
  "segment p =
     (if field p ''name'' \<noteq> Undefined then field p ''name''
      else if field p ''value'' \<noteq> Undefined then field p ''value''
      else Str ''?'')"

definition regular :: "jsval \<Rightarrow> bool" where
  "regular p =
     ((field p ''name'' = Undefined \<or> truthy (field p ''name''))
      \<and> (field p ''value'' = Undefined \<or> truthy (field p ''value'')))"

text \<open>What \<open>search\<close> pushes for a property node: \<open>name || value || '?'\<close>.\<close>

definition pushed :: "jsval \<Rightarrow> jsval" where
  "pushed p =
     (if truthy (field p ''name'') then field p ''name''
      else if truthy (field p ''value'') then field p ''value''
      else Str ''?'')"

inductive member_chain :: "jsval \<Rightarrow> jsval \<Rightarrow> jsval list \<Rightarrow> bool" where
  innermost:
    "get m ''object'' = Inr b \<Longrightarrow> get b ''type'' = Inr ty \<Longrightarrow> ty \<noteq> syntax_MemberExpression \<Longrightarrow>
     get m ''property'' = Inr p \<Longrightarrow> get p ''name'' = Inr n \<Longrightarrow>
     member_chain m b [p]"
| outer:
    "get m ''object'' = Inr m' \<Longrightarrow> get m' ''type'' = Inr syntax_MemberExpression \<Longrightarrow>
     member_chain m' b ps \<Longrightarrow>
     get m ''property'' = Inr p \<Longrightarrow> get p ''name'' = Inr n \<Longrightarrow>
     member_chain m b (ps @ [p])"

section \<open>Example trees and states\<close>

text \<open>An if-statement \<open>if (a) {}\<close> with the given alternate (\<open>null\<close> when there is no \<open>else\<close>).\<close>

definition if_node :: "jsval \<Rightarrow> jsval" where
  "if_node alternate =
     Obj [(''type'', Str ''IfStatement''),
          (''test'', Obj [(''type'', Str ''Identifier''), (''name'', Str ''a'')]),
          (''consequent'', Obj [(''type'', Str ''BlockStatement''), (''body'', Arr [])]),
          (''alternate'', alternate)]"

text \<open>A switch case \<open>case 1:\<close> with the given consequent statements.\<close>

definition case_node :: "jsval list \<Rightarrow> jsval" where
  "case_node stmts =
     Obj [(''type'', Str ''SwitchCase''),
          (''test'', Obj [(''type'', Str ''Literal''), (''value'', Num 1)]),
          (''consequent'', Arr stmts)]"

text \<open>The state of a run just after the walk has entered an empty program.\<close>

definition one_scope :: state where
  "one_scope =
     \<lparr>a_stack = [0], a_source = [0],
      a_heap = [Context (Obj [(''type'', Str ''Program''), (''body'', Arr [])]) Null 0]\<rparr>"

text \<open>Builders for the nodes a parser of the ESTree family produces.\<close>

definition ident :: "string \<Rightarrow> jsval" where
  "ident x = Obj [(''type'', Str ''Identifier''), (''name'', Str x)]"

definition call_stmt :: "string \<Rightarrow> jsval" where
  "call_stmt f =
     Obj [(''type'', Str ''ExpressionStatement''),
          (''expression'', Obj [(''type'', Str ''CallExpression''), (''callee'', ident f),
                                (''arguments'', Arr [])])]"

definition block :: "jsval list \<Rightarrow> jsval" where
  "block stmts = Obj [(''type'', Str ''BlockStatement''), (''body'', Arr stmts)]"

definition program :: "jsval list \<Rightarrow> jsval" where
  "program stmts = Obj [(''type'', Str ''Program''), (''body'', Arr stmts)]"

text \<open>\<open>function foo() { if (a) { bar(); } else { baz(); } }\<close>\<close>

definition foo_fn :: jsval where
  "foo_fn =
     Obj [(''type'', Str ''FunctionDeclaration''), (''id'', ident ''foo''), (''params'', Arr []),
          (''body'', block [
             Obj [(''type'', Str ''IfStatement''), (''test'', ident ''a''),
                  (''consequent'', block [call_stmt ''bar'']),
                  (''alternate'', block [call_stmt ''baz''])]])]"

text \<open>The state in which the analysis of that program ends.\<close>

definition foo_state :: state where
  "foo_state =
     \<lparr>a_stack = [], a_source = [0, 1],
      a_heap = [
        \<lparr>c_node = put (program [foo_fn]) ''context'' (Bool True), c_parent = Null,
         c_children = [1], c_score = 3, c_depth = 0\<rparr>,
        \<lparr>c_node = put foo_fn ''context'' (Bool True),
         c_parent = put (program [foo_fn]) ''context'' (Bool True),
         c_children = [], c_score = 22, c_depth = 1\<rparr>]\<rparr>"

text \<open>\<open>var x = function() { return a || b; }\<close>, with the logical operator as a parameter.\<close>

definition logical :: "string \<Rightarrow> jsval \<Rightarrow> jsval \<Rightarrow> jsval" where
  "logical operator l r =
     Obj [(''type'', Str ''LogicalExpression''), (''operator'', Str operator),
          (''left'', l), (''right'', r)]"

definition x_fn :: "string \<Rightarrow> jsval" where
  "x_fn operator =
     Obj [(''type'', Str ''FunctionExpression''), (''id'', Null), (''params'', Arr []),
          (''body'', block [
             Obj [(''type'', Str ''ReturnStatement''),
                  (''argument'', logical operator (ident ''a'') (ident ''b''))]])]"

definition x_declarator :: "jsval \<Rightarrow> jsval" where
  "x_declarator init =
     Obj [(''type'', Str ''VariableDeclarator''), (''id'', ident ''x''), (''init'', init)]"

definition x_tree :: "jsval \<Rightarrow> jsval" where
  "x_tree init =
     program [Obj [(''type'', Str ''VariableDeclaration''),
                   (''declarations'', Arr [x_declarator init]), (''kind'', Str ''var'')]]"

definition x_state :: "string \<Rightarrow> int \<Rightarrow> state" where
  "x_state operator n =
     \<lparr>a_stack = [], a_source = [0, 1],
      a_heap = [
        \<lparr>c_node = put (x_tree (x_fn operator)) ''context'' (Bool True), c_parent = Null,
         c_children = [1], c_score = 3, c_depth = 0\<rparr>,
        \<lparr>c_node = put (x_fn operator) ''context'' (Bool True),
         c_parent = x_declarator (x_fn operator),
         c_children = [], c_score = n, c_depth = 1\<rparr>]\<rparr>"

text \<open>Member accesses, assignments and the function expression \<open>function() {}\<close>.\<close>

definition member :: "jsval \<Rightarrow> jsval \<Rightarrow> jsval" where
  "member obj p =
     Obj [(''type'', Str ''MemberExpression''), (''computed'', Bool False),
          (''object'', obj), (''property'', p)]"

definition anon_fn :: jsval where
  "anon_fn =
     Obj [(''type'', Str ''FunctionExpression''), (''id'', Null), (''params'', Arr []),
          (''body'', block [])]"

definition assign :: "jsval \<Rightarrow> jsval \<Rightarrow> jsval" where
  "assign l r =
     Obj [(''type'', Str ''AssignmentExpression''), (''operator'', Str ''=''),
          (''left'', l), (''right'', r)]"

definition assign_tree :: "jsval \<Rightarrow> jsval \<Rightarrow> jsval" where
  "assign_tree l r =
     program [Obj [(''type'', Str ''ExpressionStatement''), (''expression'', assign l r)]]"

definition abc :: jsval where
  "abc = member (member (ident ''a'') (ident ''b'')) (ident ''c'')"

definition assign_state :: "jsval \<Rightarrow> jsval \<Rightarrow> state" where
  "assign_state l r =
     \<lparr>a_stack = [], a_source = [0, 1],
      a_heap = [
        \<lparr>c_node = put (assign_tree l r) ''context'' (Bool True), c_parent = Null,
         c_children = [1], c_score = 3, c_depth = 0\<rparr>,
        \<lparr>c_node = put r ''context'' (Bool True), c_parent = assign l r,
         c_children = [], c_score = 0, c_depth = 1\<rparr>]\<rparr>"

text \<open>The named function expression \<open>function foo() {}\<close>.\<close>

definition foo_expr :: jsval where
  "foo_expr =
     Obj [(''type'', Str ''FunctionExpression''), (''id'', ident ''foo''), (''params'', Arr []),
          (''body'', block [])]"

section \<open>Scoring rules\<close>

lemma Analyzer_add_active:
  "Analyzer_context s = Some r \<Longrightarrow>
   Analyzer_add num s =
     Inr (s\<lparr>a_heap := (a_heap s)[r := (a_heap s ! r)\<lparr>c_score := c_score (a_heap s ! r) + num\<rparr>]\<rparr>)"
  by (simp add: Analyzer_add_def Context_add_def)

lemma Analyzer_context_heap_update [simp]:
  "Analyzer_context (s\<lparr>a_heap := h\<rparr>) = Analyzer_context s"
  by (simp add: Analyzer_context_def)

text \<open>
  C3. Visiting an if-statement node adds exactly one branch weight (10) to the local
  score of the active scope record when the node's \<open>alternate\<close> is absent (falsy), and
  exactly two (20) when it is present; nothing else in the state changes.
\<close>

theorem if_statement_score:
  assumes "get nd ''type'' = Inr syntax_IfStatement"
    and "get nd ''alternate'' = Inr alternate"
    and "Analyzer_context s = Some r"
    and "r < length (a_heap s)"
  shows "process nd s =
           Inr (s\<lparr>a_heap := (a_heap s)[r := (a_heap s ! r)
                  \<lparr>c_score := c_score (a_heap s ! r) + (if truthy alternate then 20 else 10)\<rparr>]\<rparr>)"
  using assms
  by (simp add: process_def addIf_def rbind_def syntax_defs score_branch_def Analyzer_add_active
      add.commute)

theorem if_statement_score_witness:
  "get (if_node Null) ''type'' = Inr syntax_IfStatement
   \<and> get (if_node Null) ''alternate'' = Inr Null
   \<and> Analyzer_context one_scope = Some 0
   \<and> 0 < length (a_heap one_scope)
   \<and> process (if_node Null) one_scope =
       Inr (one_scope\<lparr>a_heap :=
         [(Context (Obj [(''type'', Str ''Program''), (''body'', Arr [])]) Null 0)\<lparr>c_score := 10\<rparr>]\<rparr>)
   \<and> process (if_node (Obj [(''type'', Str ''BlockStatement''), (''body'', Arr [])])) one_scope =
       Inr (one_scope\<lparr>a_heap :=
         [(Context (Obj [(''type'', Str ''Program''), (''body'', Arr [])]) Null 0)\<lparr>c_score := 20\<rparr>]\<rparr>)"
  using if_statement_score [of "if_node Null" Null one_scope 0]
    if_statement_score [of "if_node (Obj [(''type'', Str ''BlockStatement''), (''body'', Arr [])])"
       "Obj [(''type'', Str ''BlockStatement''), (''body'', Arr [])]" one_scope 0]
  by (simp add: if_node_def one_scope_def syntax_defs Analyzer_context_def Context_def)

text \<open>
  C4. Visiting a switch-case node adds the empty-branch weight (1) to the local score of
  the active scope record when the case's \<open>consequent\<close> list is empty, and the full
  branch weight (10) when it has at least one statement; nothing else changes.
\<close>

theorem switch_case_score:
  assumes "get nd ''type'' = Inr syntax_SwitchCase"
    and "get nd ''consequent'' = Inr (Arr stmts)"
    and "Analyzer_context s = Some r"
    and "r < length (a_heap s)"
  shows "process nd s =
           Inr (s\<lparr>a_heap := (a_heap s)[r := (a_heap s ! r)
                  \<lparr>c_score := c_score (a_heap s ! r) + (if stmts = [] then 1 else 10)\<rparr>]\<rparr>)"
  using assms
  by (simp add: process_def addCase_def rbind_def syntax_defs score_branch_def
      score_branchEmpty_def Analyzer_add_active)

theorem switch_case_score_witness:
  "get (case_node []) ''type'' = Inr syntax_SwitchCase
   \<and> get (case_node []) ''consequent'' = Inr (Arr [])
   \<and> Analyzer_context one_scope = Some 0
   \<and> 0 < length (a_heap one_scope)
   \<and> process (case_node []) one_scope =
       Inr (one_scope\<lparr>a_heap :=
         [(Context (Obj [(''type'', Str ''Program''), (''body'', Arr [])]) Null 0)\<lparr>c_score := 1\<rparr>]\<rparr>)
   \<and> process (case_node [Obj [(''type'', Str ''BreakStatement''), (''label'', Null)]]) one_scope =
       Inr (one_scope\<lparr>a_heap :=
         [(Context (Obj [(''type'', Str ''Program''), (''body'', Arr [])]) Null 0)\<lparr>c_score := 10\<rparr>]\<rparr>)"
  using switch_case_score [of "case_node []" "[]" one_scope 0]
    switch_case_score [of "case_node [Obj [(''type'', Str ''BreakStatement''), (''label'', Null)]]"
       "[Obj [(''type'', Str ''BreakStatement''), (''label'', Null)]]" one_scope 0]
  by (simp add: case_node_def one_scope_def syntax_defs Analyzer_context_def Context_def)

section \<open>Absent tree\<close>

text \<open>
  C8. When \<open>analyze\<close> is given an absent tree (a falsy value: \<open>null\<close>, \<open>undefined\<close>), it
  returns without an error, the heap of scope records is as before (no record was
  created), the source file holds exactly the records it held (its \<open>add\<close> was not
  called), and the tree is untouched; only the stack has been reset.
\<close>

theorem analyze_absent_tree:
  "\<not> truthy ast \<Longrightarrow> analyze ast src s = Inr (s\<lparr>a_stack := [], a_source := src\<rparr>, ast)"
  by (simp add: analyze_def Analyzer_traverse_def)

theorem analyze_absent_tree_witness:
  "\<not> truthy Null \<and> analyze Null [] Analyzer = Inr (Analyzer, Null)
   \<and> \<not> truthy Undefined \<and> analyze Undefined [] Analyzer = Inr (Analyzer, Undefined)"
  using analyze_absent_tree [of Null "[]" Analyzer] analyze_absent_tree [of Undefined "[]" Analyzer]
  by (simp add: Analyzer_def)

section \<open>Worked examples\<close>

lemmas tree_defs = ident_def call_stmt_def block_def program_def logical_def

lemmas run_defs =
  traverse_node.simps analyze_def Analyzer_traverse_def traverse_def Analyzer_def enter_def leave_def process_def
  rbind_def syntax_defs contexts_def pushContext_def popContext_def addFn_def addCall_def
  addIf_def addCase_def addLogical_def addBranch_def Analyzer_add_def Analyzer_context_def
  Context_add_def Context_def score_branch_def score_branchEmpty_def score_fn_def
  score_call_def Let_def

lemmas sig_defs =
  Context_signature_def Context_main_def Context_named_def Context_vardec_def
  Context_assignment_def rbind_def syntax_defs

lemma foo_run:
  "analyze (program [foo_fn]) [] Analyzer =
     Inr (foo_state, put (program [put foo_fn ''context'' (Bool True)]) ''context'' (Bool True))"
  by (simp add: run_defs tree_defs foo_fn_def foo_state_def)

lemma foo_signature: "Context_signature (a_heap foo_state ! 1) = Inr (Str ''foo'')"
  by (simp add: sig_defs foo_state_def foo_fn_def tree_defs)

lemma foo_root_score: "Context_score (2 + n) (a_heap foo_state) 0 = Some 25"
  by (simp add: foo_state_def)

lemma foo_fn_score: "Context_score (1 + n) (a_heap foo_state) 1 = Some 22"
  by (simp add: foo_state_def)

text \<open>
  C2, as the code has it. Analyzing \<open>function foo() { if (a) { bar(); } else { baz(); } }\<close>
  ends without an error with two scope records. The root record's local score is 3, the
  function weight, added before the new scope is pushed; its \<open>score()\<close> is 25, because
  \<open>score()\<close> adds the score of its child \<open>foo\<close>. The \<open>foo\<close> record's local score and
  \<open>score()\<close> are 22 (two branch weights and two call weights), its depth is 1 and its
  signature is \<open>foo\<close>. The bound on the call depth of \<open>score()\<close> is any number from 2 on
  for the root and from 1 on for \<open>foo\<close>.
\<close>

theorem foo_example:
  "analyze (program [foo_fn]) [] Analyzer =
     Inr (foo_state, put (program [put foo_fn ''context'' (Bool True)]) ''context'' (Bool True))
   \<and> c_score (a_heap foo_state ! 0) = 3
   \<and> Context_score (2 + n) (a_heap foo_state) 0 = Some 25
   \<and> c_children (a_heap foo_state ! 0) = [1]
   \<and> c_score (a_heap foo_state ! 1) = 22
   \<and> Context_score (1 + m) (a_heap foo_state) 1 = Some 22
   \<and> Context_signature (a_heap foo_state ! 0) = Inr (Str ''*'')
   \<and> Context_signature (a_heap foo_state ! 1) = Inr (Str ''foo'')"
proof -
  have "Context_signature (a_heap foo_state ! 0) = Inr (Str ''*'')"
    by (simp add: sig_defs foo_state_def tree_defs)
  moreover have "c_score (a_heap foo_state ! 0) = 3" "c_score (a_heap foo_state ! 1) = 22"
    "c_children (a_heap foo_state ! 0) = [1]"
    by (simp_all add: foo_state_def)
  ultimately show ?thesis
    using foo_run foo_signature foo_root_score [of n] foo_fn_score [of m] by simp
qed

text \<open>
  C2, as the claim states it, fails: the \<open>score()\<close> of the root record of that program is
  25, not 3.
\<close>

theorem foo_root_score_counterexample:
  "analyze (program [foo_fn]) [] Analyzer =
     Inr (foo_state, put (program [put foo_fn ''context'' (Bool True)]) ''context'' (Bool True))
   \<and> Context_score 2 (a_heap foo_state) 0 = Some 25
   \<and> Context_score 2 (a_heap foo_state) 0 \<noteq> Some 3"
  using foo_run foo_root_score [of 0] by simp

lemma x_run_or:
  "analyze (x_tree (x_fn ''||'')) [] Analyzer =
     Inr (x_state ''||'' 10,
          put (x_tree (put (x_fn ''||'') ''context'' (Bool True))) ''context'' (Bool True))"
  by (simp add: run_defs tree_defs x_fn_def x_state_def x_tree_def x_declarator_def)

lemma x_run_and:
  "analyze (x_tree (x_fn ''&&'')) [] Analyzer =
     Inr (x_state ''&&'' 0,
          put (x_tree (put (x_fn ''&&'') ''context'' (Bool True))) ''context'' (Bool True))"
  by (simp add: run_defs tree_defs x_fn_def x_state_def x_tree_def x_declarator_def)

lemma x_signature:
  "Context_named (a_heap (x_state operator n) ! 1) = Inr Undefined"
  "Context_vardec (a_heap (x_state operator n) ! 1) = Inr (Str ''x'')"
  "Context_signature (a_heap (x_state operator n) ! 1) = Inr (Str ''x'')"
  by (simp_all add: sig_defs x_state_def x_fn_def tree_defs x_declarator_def)

lemma process_logical:
  "process (logical operator l r) s =
     (if operator = ''||'' then Analyzer_add 10 s else Inr s)"
  by (auto simp: process_def addLogical_def rbind_def syntax_defs logical_def score_branch_def)

text \<open>
  C5. Analyzing \<open>var x = function() { return a || b; }\<close> ends without an error; the
  function's scope record has the declarator of \<open>x\<close> as its parent node, no declared
  name, the name \<open>x\<close> from the variable-declarator rule and so the signature \<open>x\<close>, and
  the local score 10, one branch weight for the \<open>||\<close>. With \<open>&&\<close> in place of \<open>||\<close>
  the local score is 0. In general a logical expression adds one branch weight to the
  active record when its operator is \<open>||\<close> and leaves the state as it is otherwise.
\<close>

theorem x_example:
  "analyze (x_tree (x_fn ''||'')) [] Analyzer =
     Inr (x_state ''||'' 10,
          put (x_tree (put (x_fn ''||'') ''context'' (Bool True))) ''context'' (Bool True))
   \<and> c_parent (a_heap (x_state ''||'' 10) ! 1) = x_declarator (x_fn ''||'')
   \<and> Context_named (a_heap (x_state ''||'' 10) ! 1) = Inr Undefined
   \<and> Context_vardec (a_heap (x_state ''||'' 10) ! 1) = Inr (Str ''x'')
   \<and> Context_signature (a_heap (x_state ''||'' 10) ! 1) = Inr (Str ''x'')
   \<and> c_score (a_heap (x_state ''||'' 10) ! 1) = 1 * score_branch
   \<and> analyze (x_tree (x_fn ''&&'')) [] Analyzer =
     Inr (x_state ''&&'' 0,
          put (x_tree (put (x_fn ''&&'') ''context'' (Bool True))) ''context'' (Bool True))
   \<and> c_score (a_heap (x_state ''&&'' 0) ! 1) = 0
   \<and> process (logical ''||'' l r) s = Analyzer_add score_branch s
   \<and> process (logical ''&&'' l r) s = Inr s"
proof -
  have "c_parent (a_heap (x_state ''||'' 10) ! 1) = x_declarator (x_fn ''||'')"
    "c_score (a_heap (x_state ''||'' 10) ! 1) = 1 * score_branch"
    "c_score (a_heap (x_state ''&&'' 0) ! 1) = 0"
    by (simp_all add: x_state_def score_branch_def)
  moreover have "process (logical ''||'' l r) s = Analyzer_add score_branch s"
    "process (logical ''&&'' l r) s = Inr s"
    by (simp_all add: process_logical score_branch_def)
  ultimately show ?thesis
    using x_run_or x_run_and x_signature [of "''||''" 10] by simp
qed

section \<open>Signatures\<close>

lemma get_field: "get v k = Inr x \<Longrightarrow> get v k' = Inr (field v k')"
  by (cases v) (simp_all add: field_def)

lemma search_property:
  assumes "get m ''property'' = Inr p" and "get p ''name'' = Inr n"
  shows "rbind (get m ''property'') (\<lambda>property.
         rbind (get property ''name'') (\<lambda>name.
           if truthy name then Inr (ret1 @ [name])
           else rbind (get property ''value'') (\<lambda>val.
             if truthy val then Inr (ret1 @ [val]) else Inr (ret1 @ [Str ''?''])))) =
         Inr (ret1 @ [pushed p])"
proof -
  have "get p ''name'' = Inr (field p ''name'')" "get p ''value'' = Inr (field p ''value'')"
    using assms(2) by (rule get_field)+
  then show ?thesis
    using assms(1) by (simp add: rbind_def pushed_def)
qed

lemma member_chain_search:
  "member_chain m b ps \<Longrightarrow> search m ret = Inr (ret @ field b ''name'' # map pushed ps)"
proof (induction arbitrary: ret rule: member_chain.induct)
  case (innermost m b ty p n)
  have "get b ''name'' = Inr (field b ''name'')"
    using innermost(2) by (rule get_field)
  then have "search m ret =
      rbind (Inr (ret @ [field b ''name''])) (\<lambda>ret1.
         rbind (get m ''property'') (\<lambda>property.
         rbind (get property ''name'') (\<lambda>name.
           if truthy name then Inr (ret1 @ [name])
           else rbind (get property ''value'') (\<lambda>val.
             if truthy val then Inr (ret1 @ [val]) else Inr (ret1 @ [Str ''?''])))))"
    using innermost(1,2,3) by (subst search.simps) (simp add: rbind_def)
  then show ?case
    using search_property [OF innermost(4,5)] by (simp add: rbind_def)
next
  case (outer m m' b ps p n)
  have "search m ret =
      rbind (search m' ret) (\<lambda>ret1.
         rbind (get m ''property'') (\<lambda>property.
         rbind (get property ''name'') (\<lambda>name.
           if truthy name then Inr (ret1 @ [name])
           else rbind (get property ''value'') (\<lambda>val.
             if truthy val then Inr (ret1 @ [val]) else Inr (ret1 @ [Str ''?''])))))"
    using outer(1,2) by (subst search.simps) (simp add: rbind_def)
  then show ?case
    using search_property [OF outer(4,5)] outer.IH [of ret] by (simp add: rbind_def)
qed

lemma regular_pushed: "regular p \<Longrightarrow> pushed p = segment p"
  by (auto simp: regular_def pushed_def segment_def)

lemma regular_segments: "list_all regular ps \<Longrightarrow> map pushed ps = map segment ps"
  by (induction ps) (simp_all add: regular_pushed)

lemma member_chain_segments: "member_chain m b ps \<Longrightarrow> ps \<noteq> []"
  by (induction rule: member_chain.induct) auto

lemma join_nonempty: "ps \<noteq> [] \<Longrightarrow> join (x # ps) ''.'' \<noteq> []"
  by (cases ps) (auto simp: join_def)

lemma abc_chain: "member_chain abc (ident ''a'') [ident ''b'', ident ''c'']"
proof -
  have "member_chain (member (ident ''a'') (ident ''b'')) (ident ''a'') [ident ''b'']"
    by (rule member_chain.innermost [where ty = "Str ''Identifier''" and n = "Str ''b''"])
       (simp_all add: member_def ident_def syntax_defs)
  then have "member_chain abc (ident ''a'') ([ident ''b''] @ [ident ''c''])"
    by (rule member_chain.outer [where m' = "member (ident ''a'') (ident ''b'')" and n = "Str ''c''", rotated 2])
       (simp_all add: abc_def member_def ident_def syntax_defs)
  then show ?thesis by simp
qed

lemma abc_run:
  "analyze (assign_tree abc anon_fn) [] Analyzer =
     Inr (assign_state abc anon_fn,
          put (assign_tree abc (put anon_fn ''context'' (Bool True))) ''context'' (Bool True))"
  by (simp add: run_defs tree_defs assign_tree_def assign_def assign_state_def abc_def
      member_def anon_fn_def)

text \<open>
  C6, as the code has it. Take a scope record that is not the program root, whose
  function has no declared name, and whose parent node is an assignment expression
  with the target \<open>left\<close>. If the target has a truthy name, as a simple identifier has,
  \<open>signature()\<close> is that name. Otherwise, if the target is a member-access chain over
  the innermost object \<open>b\<close> whose property nodes \<open>ps\<close> are regular, \<open>signature()\<close> is
  the name of \<open>b\<close> followed by one segment for each property node, left to right,
  joined with dots; a segment is the property's name, or else its literal value, or
  else \<open>?\<close>. The witness is \<open>a.b.c = function() {}\<close>, whose signature is \<open>a.b.c\<close>, and
  \<open>x = function() {}\<close>, whose signature is \<open>x\<close>.
\<close>

theorem assignment_signature:
  "Context_main c = Inr Undefined \<and> Context_named c = Inr Undefined
   \<and> get (c_parent c) ''type'' = Inr syntax_AssignmentExpression
   \<and> get (c_parent c) ''left'' = Inr left \<and> get left ''name'' = Inr name
   \<longrightarrow> (truthy name \<longrightarrow> Context_signature c = Inr name)
     \<and> (\<not> truthy name \<and> member_chain left b ps \<and> list_all regular ps \<longrightarrow>
          Context_signature c = Inr (Str (join (field b ''name'' # map segment ps) ''.'')))"
proof -
  have "join (field b ''name'' # map pushed ps) ''.'' \<noteq> []" if "member_chain left b ps"
    using that by (simp add: member_chain_segments join_nonempty)
  then show ?thesis
    by (auto simp: Context_signature_def Context_vardec_def Context_assignment_def rbind_def
        syntax_defs member_chain_search regular_segments)
qed

theorem assignment_signature_witness:
  "analyze (assign_tree abc anon_fn) [] Analyzer =
     Inr (assign_state abc anon_fn,
          put (assign_tree abc (put anon_fn ''context'' (Bool True))) ''context'' (Bool True))
   \<and> Context_main (a_heap (assign_state abc anon_fn) ! 1) = Inr Undefined
   \<and> Context_named (a_heap (assign_state abc anon_fn) ! 1) = Inr Undefined
   \<and> get (c_parent (a_heap (assign_state abc anon_fn) ! 1)) ''type'' = Inr syntax_AssignmentExpression
   \<and> get (c_parent (a_heap (assign_state abc anon_fn) ! 1)) ''left'' = Inr abc
   \<and> get abc ''name'' = Inr Undefined
   \<and> \<not> truthy Undefined
   \<and> member_chain abc (ident ''a'') [ident ''b'', ident ''c'']
   \<and> list_all regular [ident ''b'', ident ''c'']
   \<and> Context_signature (a_heap (assign_state abc anon_fn) ! 1) = Inr (Str ''a.b.c'')
   \<and> Context_signature (Context anon_fn (assign (ident ''x'') anon_fn) 1) = Inr (Str ''x'')"
proof -
  let ?c = "a_heap (assign_state abc anon_fn) ! 1"
  let ?d = "Context anon_fn (assign (ident ''x'') anon_fn) 1"
  have c: "Context_main ?c = Inr Undefined" "Context_named ?c = Inr Undefined"
    "get (c_parent ?c) ''type'' = Inr syntax_AssignmentExpression"
    "get (c_parent ?c) ''left'' = Inr abc" "get abc ''name'' = Inr Undefined"
    by (simp_all add: sig_defs assign_state_def assign_def anon_fn_def abc_def member_def)
  have d: "Context_main ?d = Inr Undefined" "Context_named ?d = Inr Undefined"
    "get (c_parent ?d) ''type'' = Inr syntax_AssignmentExpression"
    "get (c_parent ?d) ''left'' = Inr (ident ''x'')" "get (ident ''x'') ''name'' = Inr (Str ''x'')"
    by (simp_all add: sig_defs Context_def assign_def anon_fn_def ident_def)
  have r: "list_all regular [ident ''b'', ident ''c'']"
    by (simp add: regular_def field_def ident_def)
  have "join (field (ident ''a'') ''name'' # map segment [ident ''b'', ident ''c'']) ''.'' = ''a.b.c''"
    by (simp add: join_def field_def segment_def ident_def)
  then have "Context_signature ?c = Inr (Str ''a.b.c'')"
    using assignment_signature [of ?c abc Undefined "ident ''a''" "[ident ''b'', ident ''c'']"]
      c abc_chain r by simp
  moreover have "Context_signature ?d = Inr (Str ''x'')"
    using assignment_signature [of ?d "ident ''x''" "Str ''x''"] d by simp
  ultimately show ?thesis
    using abc_run c abc_chain r by simp
qed

text \<open>
  C6, as the claim states it, fails for a function with a declared name: the record of
  \<open>x = function foo() {}\<close> has an assignment to the simple identifier \<open>x\<close> as its parent
  node and the signature \<open>foo\<close>, from the rule for declared names, which comes first.
\<close>

theorem assignment_signature_counterexample:
  "get (c_parent (Context foo_expr (assign (ident ''x'') foo_expr) 1)) ''type'' =
     Inr syntax_AssignmentExpression
   \<and> get (c_parent (Context foo_expr (assign (ident ''x'') foo_expr) 1)) ''left'' = Inr (ident ''x'')
   \<and> get (ident ''x'') ''name'' = Inr (Str ''x'')
   \<and> Context_signature (Context foo_expr (assign (ident ''x'') foo_expr) 1) = Inr (Str ''foo'')
   \<and> Context_signature (Context foo_expr (assign (ident ''x'') foo_expr) 1) \<noteq> Inr (Str ''x'')"
  by (simp add: sig_defs Context_def assign_def foo_expr_def ident_def)

text \<open>
  C9, as the code has it. For a scope record whose node and parent node are objects:
  \<open>main\<close> and \<open>named\<close> do not raise, and \<open>named\<close> is \<open>undefined\<close> when the node has no
  \<open>id\<close>; \<open>vardec\<close> is \<open>undefined\<close> when the parent is not a variable declarator (also
  when it has no type), and \<open>assignment\<close> is \<open>undefined\<close> when the parent is not an
  assignment expression; when no rule matches, \<open>signature()\<close> is \<open>anonymous\<close>. And
  \<open>signature()\<close> returns a truthy value, without raising, whenever a parent that is a
  variable declarator has an object as its \<open>id\<close> and a parent that is an assignment
  expression has a target with a truthy name or a target that is a member-access chain.
\<close>

theorem signature_permissive:
  assumes "c_node c = Obj nfs" and "c_parent c = Obj pfs"
  shows "(Context_main c = Inr (Str ''*'') \<or> Context_main c = Inr Undefined)
   \<and> (\<exists>v. Context_named c = Inr v)
   \<and> (map_of nfs ''id'' = None \<longrightarrow> Context_named c = Inr Undefined)
   \<and> (map_of pfs ''type'' \<noteq> Some syntax_VariableDeclarator \<longrightarrow> Context_vardec c = Inr Undefined)
   \<and> (map_of pfs ''type'' \<noteq> Some syntax_AssignmentExpression \<longrightarrow>
        Context_assignment c = Inr Undefined)
   \<and> (Context_main c = Inr Undefined \<and> Context_named c = Inr Undefined
        \<and> map_of pfs ''type'' \<noteq> Some syntax_VariableDeclarator
        \<and> map_of pfs ''type'' \<noteq> Some syntax_AssignmentExpression \<longrightarrow>
        Context_signature c = Inr (Str ''anonymous''))
   \<and> ((map_of pfs ''type'' = Some syntax_VariableDeclarator \<longrightarrow>
          (\<exists>ifs. map_of pfs ''id'' = Some (Obj ifs)))
        \<and> (map_of pfs ''type'' = Some syntax_AssignmentExpression \<longrightarrow>
          (\<exists>left name. map_of pfs ''left'' = Some left \<and> get left ''name'' = Inr name
             \<and> (truthy name \<or> (\<exists>b ps. member_chain left b ps)))) \<longrightarrow>
        (\<exists>v. Context_signature c = Inr v \<and> truthy v))"
proof -
  note n = assms(1) and p = assms(2)
  have main: "Context_main c = Inr (Str ''*'') \<or> Context_main c = Inr Undefined"
    using n by (simp add: Context_main_def rbind_def)
  have named: "\<exists>v. Context_named c = Inr v"
    using n by (cases "the (map_of nfs ''id'')")
      (auto simp: Context_named_def rbind_def split: option.splits)
  have named_missing: "map_of nfs ''id'' = None \<longrightarrow> Context_named c = Inr Undefined"
    using n by (simp add: Context_named_def rbind_def)
  have vardec:
    "map_of pfs ''type'' \<noteq> Some syntax_VariableDeclarator \<longrightarrow> Context_vardec c = Inr Undefined"
    using p by (auto simp: Context_vardec_def rbind_def syntax_defs split: option.splits)
  have assignment:
    "map_of pfs ''type'' \<noteq> Some syntax_AssignmentExpression \<longrightarrow>
       Context_assignment c = Inr Undefined"
    using p by (auto simp: Context_assignment_def rbind_def syntax_defs split: option.splits)
  have anonymous: "Context_main c = Inr Undefined \<and> Context_named c = Inr Undefined
        \<and> map_of pfs ''type'' \<noteq> Some syntax_VariableDeclarator
        \<and> map_of pfs ''type'' \<noteq> Some syntax_AssignmentExpression \<longrightarrow>
        Context_signature c = Inr (Str ''anonymous'')"
    using vardec assignment by (auto simp: Context_signature_def rbind_def)
  have total: "\<exists>v. Context_signature c = Inr v \<and> truthy v"
    if vd: "map_of pfs ''type'' = Some syntax_VariableDeclarator \<longrightarrow>
          (\<exists>ifs. map_of pfs ''id'' = Some (Obj ifs))"
      and asg: "map_of pfs ''type'' = Some syntax_AssignmentExpression \<longrightarrow>
          (\<exists>left name. map_of pfs ''left'' = Some left \<and> get left ''name'' = Inr name
             \<and> (truthy name \<or> (\<exists>b ps. member_chain left b ps)))"
  proof -
    have v: "\<exists>v. Context_vardec c = Inr v"
      using p vd by (auto simp: Context_vardec_def rbind_def syntax_defs split: option.splits)
    have a: "\<exists>v. Context_assignment c = Inr v"
    proof (cases "map_of pfs ''type'' = Some syntax_AssignmentExpression")
      case True
      then obtain left name where l: "map_of pfs ''left'' = Some left"
        "get left ''name'' = Inr name" "truthy name \<or> (\<exists>b ps. member_chain left b ps)"
        using asg by blast
      show ?thesis
      proof (cases "truthy name")
        case True
        then show ?thesis
          using p l \<open>map_of pfs ''type'' = Some syntax_AssignmentExpression\<close>
          by (simp add: Context_assignment_def rbind_def)
      next
        case False
        then obtain b ps where "member_chain left b ps" using l(3) by blast
        then show ?thesis
          using p l False \<open>map_of pfs ''type'' = Some syntax_AssignmentExpression\<close>
          by (simp add: Context_assignment_def rbind_def member_chain_search)
      qed
    next
      case False
      then show ?thesis using assignment by simp
    qed
    show ?thesis
      using main named v a by (auto simp: Context_signature_def rbind_def)
  qed
  show ?thesis
    using main named named_missing vardec assignment anonymous total by blast
qed

theorem signature_permissive_witness:
  "c_node (Context (Obj [(''type'', Str ''FunctionExpression'')]) (Obj []) 1) =
     Obj [(''type'', Str ''FunctionExpression'')]
   \<and> c_parent (Context (Obj [(''type'', Str ''FunctionExpression'')]) (Obj []) 1) = Obj []
   \<and> Context_main (Context (Obj [(''type'', Str ''FunctionExpression'')]) (Obj []) 1) = Inr Undefined
   \<and> Context_named (Context (Obj [(''type'', Str ''FunctionExpression'')]) (Obj []) 1) = Inr Undefined
   \<and> Context_vardec (Context (Obj [(''type'', Str ''FunctionExpression'')]) (Obj []) 1) = Inr Undefined
   \<and> Context_assignment (Context (Obj [(''type'', Str ''FunctionExpression'')]) (Obj []) 1) =
       Inr Undefined
   \<and> Context_signature (Context (Obj [(''type'', Str ''FunctionExpression'')]) (Obj []) 1) =
       Inr (Str ''anonymous'')"
  using signature_permissive [of "Context (Obj [(''type'', Str ''FunctionExpression'')]) (Obj []) 1"
      "[(''type'', Str ''FunctionExpression'')]" "[]"]
  by (simp add: Context_def Context_main_def rbind_def syntax_defs)

text \<open>
  C9, as the claim states it, fails: for a function node without an \<open>id\<close> and a missing
  parent node, \<open>named\<close> falls through but \<open>vardec\<close> reads \<open>this.parent.type\<close> of
  \<open>undefined\<close> and raises, and so does \<open>signature()\<close>.
\<close>

theorem signature_raises_counterexample:
  "Context_named (Context (Obj [(''type'', Str ''FunctionExpression'')]) Undefined 0) = Inr Undefined
   \<and> Context_vardec (Context (Obj [(''type'', Str ''FunctionExpression'')]) Undefined 0) = Inl TypeError
   \<and> Context_signature (Context (Obj [(''type'', Str ''FunctionExpression'')]) Undefined 0) = Inl TypeError"
  by (simp add: sig_defs Context_def)

section \<open>Scores roll up\<close>

lemma forward_iff:
  "forward h \<longleftrightarrow> (\<forall>r<length h. \<forall>c\<in>set (c_children (h ! r)). r < c \<and> c < length h)"
proof -
  have "forward h \<longleftrightarrow>
        (\<forall>r\<in>set [0..<length h]. \<forall>c\<in>set (c_children (h ! r)). r < c \<and> c < length h)"
    by (simp only: forward_def list_all_iff)
  also have "\<dots> \<longleftrightarrow> (\<forall>r<length h. \<forall>c\<in>set (c_children (h ! r)). r < c \<and> c < length h)"
    by (simp add: Ball_def)
  finally show ?thesis .
qed

lemma forwardD:
  "forward h \<Longrightarrow> r < length h \<Longrightarrow> c \<in> set (c_children (h ! r)) \<Longrightarrow> r < c \<and> c < length h"
  unfolding forward_iff by blast

lemma those_map_Some: "those (map Some vs) = Some vs"
  by (induction vs) simp_all

lemma those_eq_Some: "those xs = Some vs \<Longrightarrow> xs = map Some vs"
  by (induction xs arbitrary: vs) (auto split: option.splits)

lemma foldl_plus: "foldl (\<lambda>a b. a + b) (a :: int) vs = a + sum_list vs"
  by (induction vs arbitrary: a) simp_all

lemma Context_score_Suc:
  "map (Context_score n h) (c_children (h ! r)) = map Some vs \<Longrightarrow>
   Context_score (Suc n) h r = Some (c_score (h ! r) + sum_list vs)"
  by (simp add: those_map_Some foldl_plus)

lemma map_all_Some:
  "(\<And>x. x \<in> set xs \<Longrightarrow> \<exists>v. f x = Some v) \<Longrightarrow> \<exists>vs. map f xs = map Some vs"
proof (induction xs)
  case Nil
  then show ?case by simp
next
  case (Cons x xs)
  obtain v where "f x = Some v" using Cons.prems by auto
  moreover obtain vs where "map f xs = map Some vs" using Cons by auto
  ultimately have "map f (x # xs) = map Some (v # vs)" by simp
  then show ?case by blast
qed

lemma Context_score_returns:
  "forward h \<Longrightarrow> r < length h \<Longrightarrow> length h - r \<le> n \<Longrightarrow> \<exists>v. Context_score n h r = Some v"
proof (induction n arbitrary: r)
  case 0
  then show ?case by simp
next
  case (Suc n)
  have "\<exists>v. Context_score n h c = Some v" if "c \<in> set (c_children (h ! r))" for c
  proof -
    have "r < c \<and> c < length h" using forwardD [OF Suc.prems(1,2) that] .
    then show ?thesis using Suc.IH [of c] Suc.prems by auto
  qed
  then have "\<exists>vs. map (Context_score n h) (c_children (h ! r)) = map Some vs"
    by (rule map_all_Some)
  then show ?case using Context_score_Suc by blast
qed

lemma Context_score_more_fuel:
  "Context_score n h r = Some v \<Longrightarrow> Context_score (n + k) h r = Some v"
proof (induction n arbitrary: r v)
  case 0
  then show ?case by simp
next
  case (Suc n)
  from Suc.prems obtain vs where vs: "those (map (Context_score n h) (c_children (h ! r))) = Some vs"
    by auto
  then have eq: "map (Context_score n h) (c_children (h ! r)) = map Some vs"
    by (rule those_eq_Some)
  have "Context_score (n + k) h c = Context_score n h c" if "c \<in> set (c_children (h ! r))" for c
  proof -
    have "Context_score n h c \<in> set (map Some vs)" using that eq [symmetric] by auto
    then obtain w where "Context_score n h c = Some w" by auto
    then show ?thesis using Suc.IH by simp
  qed
  then have "map (Context_score (n + k) h) (c_children (h ! r)) =
             map (Context_score n h) (c_children (h ! r))"
    by simp
  then have "Context_score (Suc n + k) h r = Context_score (Suc n) h r"
    by (simp only: Context_score.simps add_Suc)
  then show ?case using Suc.prems by simp
qed

lemma Context_score_fuel:
  assumes "forward h" and "r < length h" and "length h \<le> n" and "length h \<le> m"
  shows "Context_score n h r = Context_score m h r"
proof -
  obtain v where v: "Context_score (length h) h r = Some v"
    using Context_score_returns [OF assms(1,2), of "length h"] by auto
  have "Context_score (length h + (n - length h)) h r = Some v"
    "Context_score (length h + (m - length h)) h r = Some v"
    using v by (rule Context_score_more_fuel)+
  then show ?thesis using assms(3,4) by simp
qed

text \<open>The score of a record depends on the records at its address and after it only.\<close>

lemma Context_score_above:
  assumes "forward h" and "length h' = length h" and "\<And>q. r \<le> q \<Longrightarrow> q < length h \<Longrightarrow> h' ! q = h ! q"
  shows "r \<le> c \<Longrightarrow> c < length h \<Longrightarrow> Context_score n h' c = Context_score n h c"
proof (induction n arbitrary: c)
  case 0
  then show ?case by simp
next
  case (Suc n)
  have c: "h' ! c = h ! c" using assms(3) Suc.prems by simp
  have "Context_score n h' d = Context_score n h d" if "d \<in> set (c_children (h ! c))" for d
  proof -
    have "c < d \<and> d < length h" using forwardD [OF assms(1) Suc.prems(2) that] .
    then show ?thesis using Suc.IH [of d] Suc.prems by simp
  qed
  then have "map (Context_score n h') (c_children (h ! c)) =
             map (Context_score n h) (c_children (h ! c))"
    by simp
  then show ?case by (simp only: Context_score.simps c)
qed

text \<open>
  C1. In a forward heap, \<open>score()\<close> of a scope record returns, for every bound on the
  call depth from the size of the heap on: every child's \<open>score()\<close> returns, and the
  record's \<open>score()\<close> is its local score plus the sum of its children's \<open>score()\<close>, to any
  nesting depth. Nothing is cached: after \<open>add(num)\<close> on the record, its \<open>score()\<close> is
  the new local score plus the same sum.
\<close>

theorem score_rolls_up:
  assumes "forward h" and "r < length h" and "length h \<le> n" and "length h \<le> m"
  shows "\<exists>vs. map (Context_score m h) (c_children (h ! r)) = map Some vs
           \<and> Context_score n h r = Some (c_score (h ! r) + sum_list vs)
           \<and> Context_score n (h[r := Context_add num (h ! r)]) r =
               Some (c_score (h ! r) + num + sum_list vs)"
proof -
  have "\<exists>v. Context_score m h c = Some v" if "c \<in> set (c_children (h ! r))" for c
  proof -
    have "r < c \<and> c < length h" using forwardD [OF assms(1,2) that] .
    then show ?thesis using Context_score_returns [OF assms(1), of c m] assms(4) by auto
  qed
  then obtain vs where vs: "map (Context_score m h) (c_children (h ! r)) = map Some vs"
    using map_all_Some by blast
  have "Context_score (Suc m) h r = Some (c_score (h ! r) + sum_list vs)"
    using vs by (rule Context_score_Suc)
  then have 1: "Context_score n h r = Some (c_score (h ! r) + sum_list vs)"
    using Context_score_fuel [OF assms(1,2,3), of "Suc m"] assms(4) by simp
  let ?h = "h[r := Context_add num (h ! r)]"
  have "Context_score m ?h c = Context_score m h c" if "c \<in> set (c_children (h ! r))" for c
  proof -
    have rc: "r < c \<and> c < length h" using forwardD [OF assms(1,2) that] .
    show ?thesis
      by (rule Context_score_above [OF assms(1), of ?h "Suc r"]) (use rc in auto)
  qed
  then have "map (Context_score m ?h) (c_children (h ! r)) =
             map (Context_score m h) (c_children (h ! r))"
    by simp
  moreover have "c_children (?h ! r) = c_children (h ! r)"
    using assms(2) by (simp add: Context_add_def)
  ultimately have "map (Context_score m ?h) (c_children (?h ! r)) = map Some vs"
    using vs by (simp only:)
  then have "Context_score (Suc m) ?h r = Some (c_score (?h ! r) + sum_list vs)"
    by (rule Context_score_Suc)
  moreover have "forward ?h"
  proof -
    have eq: "c_children (?h ! q) = c_children (h ! q)" for q
      using assms(2) by (cases "q = r") (simp_all add: Context_add_def)
    have "\<forall>q<length h. \<forall>c\<in>set (c_children (h ! q)). q < c \<and> c < length h"
      using assms(1) unfolding forward_iff .
    then have "\<forall>q<length ?h. \<forall>c\<in>set (c_children (?h ! q)). q < c \<and> c < length ?h"
      unfolding eq length_list_update .
    then show ?thesis unfolding forward_iff .
  qed
  ultimately have 2: "Context_score n ?h r = Some (c_score (h ! r) + num + sum_list vs)"
    using Context_score_fuel [of ?h r n "Suc m"] assms(2,3,4) by (simp add: Context_add_def)
  show ?thesis using vs 1 2 by blast
qed

theorem score_rolls_up_witness:
  "forward (a_heap foo_state) \<and> 0 < length (a_heap foo_state)
   \<and> map (Context_score 2 (a_heap foo_state)) (c_children (a_heap foo_state ! 0)) = map Some [22]
   \<and> Context_score 2 (a_heap foo_state) 0 = Some (3 + sum_list [22])
   \<and> Context_score 2 ((a_heap foo_state)[0 := Context_add 5 (a_heap foo_state ! 0)]) 0 =
       Some (3 + 5 + sum_list [22])"
proof -
  have f: "forward (a_heap foo_state)" "0 < length (a_heap foo_state)"
    "length (a_heap foo_state) \<le> 2"
    by (simp_all add: forward_def foo_state_def)
  have m: "map (Context_score 2 (a_heap foo_state)) (c_children (a_heap foo_state ! 0)) = map Some [22]"
    by (simp add: foo_state_def numeral_2_eq_2)
  have l: "c_score (a_heap foo_state ! 0) = 3" by (simp add: foo_state_def)
  from score_rolls_up [OF f(1,2) f(3) f(3), of 5] obtain vs where vs:
    "map (Context_score 2 (a_heap foo_state)) (c_children (a_heap foo_state ! 0)) = map Some vs"
    "Context_score 2 (a_heap foo_state) 0 = Some (c_score (a_heap foo_state ! 0) + sum_list vs)"
    "Context_score 2 ((a_heap foo_state)[0 := Context_add 5 (a_heap foo_state ! 0)]) 0 =
       Some (c_score (a_heap foo_state ! 0) + 5 + sum_list vs)"
    by (elim exE conjE)
  have "map Some vs = map Some [22]" using vs(1) m by (simp only:)
  then have v: "vs = [22]" by (simp add: map_eq_Cons_conv)
  have "Context_score 2 (a_heap foo_state) 0 = Some (3 + sum_list [22])"
    "Context_score 2 ((a_heap foo_state)[0 := Context_add 5 (a_heap foo_state ! 0)]) 0 =
       Some (3 + 5 + sum_list [22])"
    using vs(2,3) by (simp_all only: l v)
  then show ?thesis using f(1,2) m by (intro conjI)
qed

end
